theory Spec2Isabelle
  imports Main "HOL-Library.AList" "HOL-Library.Multiset" "HOL-Library.Char_ord"
    "HOL-Library.List_Lexorder" "HOL-Library.Code_Target_Nat"
begin

section \<open>Errors\<close>

text \<open>
  Everything \<^verbatim>\<open>utils.ts\<close> throws is a value. \<open>Error msg\<close> is \<^verbatim>\<open>new Error(msg)\<close>
  of the source; \<open>TypeError\<close> is what the JavaScript runtime throws when a property of
  \<^verbatim>\<open>undefined\<close> or \<^verbatim>\<open>null\<close> is read or written; the others are the exceptions of the
  \<^verbatim>\<open>@angular-devkit\<close> libraries the source calls.
\<close>

datatype error =
    Error string
  | TypeError
  | InvalidPathException string
  | FileAlreadyExistException string
  | FileDoesNotExistException string
  | PathIsFileException string

section \<open>Strings and paths\<close>

text \<open>
  \<^verbatim>\<open>String.prototype.split\<close> with a separator that matches single characters:
  the empty string splits into one empty part.
\<close>

fun split_on :: "(char \<Rightarrow> bool) \<Rightarrow> string \<Rightarrow> string list" where
  "split_on P [] = [[]]"
| "split_on P (c # cs) =
     (if P c then [] # split_on P cs
      else (c # hd (split_on P cs)) # tl (split_on P cs))"

definition split_slash :: "string \<Rightarrow> string list" where
  "split_slash s = split_on (\<lambda>c. c = CHR ''/'') s"

text \<open>\<^verbatim>\<open>Array.prototype.join('/')\<close>.\<close>

fun sep_join :: "string list \<Rightarrow> string" where
  "sep_join [] = []"
| "sep_join [x] = x"
| "sep_join (x # y # zs) = x @ ''/'' @ sep_join (y # zs)"

subsection \<open>The library's \<^verbatim>\<open>normalize\<close> and \<^verbatim>\<open>join\<close>\<close>

text \<open>
  \<^verbatim>\<open>normalize\<close> and \<^verbatim>\<open>join\<close> are imported from \<^verbatim>\<open>@angular-devkit/core\<close>; they are not
  code of this repository. The model follows the library's implementation
  (\<^verbatim>\<open>noCacheNormalize\<close>; the cache in front of it only memoises):
  \<^verbatim>\<open>
  if (path == '' || path == '.') return '';
  else if (path == '/') return '/';
  const original = path;
  if (path.match(/^[A-Z]:[\/\\]/i))
    path = '\\' + path[0] + '\\' + path.substr(3);
  const p = path.split(/[\/\\]/g);
  let relative = false; let i = 1;
  if (p[0] != '') { p.unshift('.'); relative = true; }
  while (i < p.length) {
    if (p[i] == '.') p.splice(i, 1);
    else if (p[i] == '..') {
      if (i < 2 && !relative) throw new InvalidPathException(original);
      else if (i >= 2 && p[i - 1] != '..') { p.splice(i - 1, 2); i--; }
      else i++;
    } else if (p[i] == '') p.splice(i, 1);
    else i++;
  }
  if (p.length == 1) return p[0] == '' ? '/' : '';
  else { if (p[0] == '.') p.shift(); return p.join('/'); }
  \<close>
  The model is \<open>normalize_path\<close>. In \<open>normalize_loop\<close> the segments before index
  \<^verbatim>\<open>i\<close> are \<open>done\<close> and those from \<^verbatim>\<open>i\<close> on are the list the recursion consumes:
  every turn of the loop either drops \<^verbatim>\<open>p[i]\<close> or moves past it.
\<close>

definition is_sep :: "char \<Rightarrow> bool" where
  "is_sep c = (c = CHR ''/'' \<or> c = CHR 0x5C)"

definition is_letter :: "char \<Rightarrow> bool" where
  "is_letter c =
     ((CHR ''A'' \<le> c \<and> c \<le> CHR ''Z'') \<or> (CHR ''a'' \<le> c \<and> c \<le> CHR ''z''))"

fun is_windows_drive :: "string \<Rightarrow> bool" where
  "is_windows_drive (a # b # c # _) = (is_letter a \<and> b = CHR '':'' \<and> is_sep c)"
| "is_windows_drive _ = False"

fun normalize_loop ::
  "string \<Rightarrow> bool \<Rightarrow> string list \<Rightarrow> string list \<Rightarrow> error + string list" where
  "normalize_loop original relative done [] = Inr done"
| "normalize_loop original relative done (seg # rest) =
     (if seg = ''.'' then normalize_loop original relative done rest
      else if seg = ''..'' then
        (if length done < 2 \<and> \<not> relative then Inl (InvalidPathException original)
         else if 2 \<le> length done \<and> last done \<noteq> ''..''
           then normalize_loop original relative (butlast done) rest
         else normalize_loop original relative (done @ [seg]) rest)
      else if seg = [] then normalize_loop original relative done rest
      else normalize_loop original relative (done @ [seg]) rest)"

definition normalize_path :: "string \<Rightarrow> error + string" where
  "normalize_path path =
     (if path = [] \<or> path = ''.'' then Inr []
      else if path = ''/'' then Inr ''/''
      else
        let path' = (if is_windows_drive path
                     then CHR 0x5C # hd path # CHR 0x5C # drop 3 path else path);
            p = split_on is_sep path';
            relative = (hd p \<noteq> []);
            p' = (if relative then ''.'' # p else p)
        in case normalize_loop path relative [hd p'] (tl p') of
             Inl e \<Rightarrow> Inl e
           | Inr q \<Rightarrow>
               if length q = 1 then Inr (if hd q = [] then ''/'' else [])
               else Inr (sep_join (if hd q = ''.'' then tl q else q)))"


section \<open>\<^verbatim>\<open>offsetFromRoot\<close>\<close>

text \<open>
  \<^verbatim>\<open>for (let i = 0; i < parts.length; ++i) offset += '../'\<close>, with the number of parts
  as \<open>n\<close>.
\<close>

function offset_loop :: "nat \<Rightarrow> nat \<Rightarrow> string \<Rightarrow> string" where
  "offset_loop i n offset =
     (if i < n then offset_loop (Suc i) n (offset @ ''../'') else offset)"
  by pat_completeness auto
termination
  by (relation "measure (\<lambda>(i, n, offset). n - i)") auto

definition offsetFromRoot :: "string \<Rightarrow> error + string" where
  "offsetFromRoot fullPathToSourceDir =
     (case normalize_path fullPathToSourceDir of
        Inl e \<Rightarrow> Inl e
      | Inr np \<Rightarrow> Inr (offset_loop 0 (length (split_slash np)) []))"


section \<open>JavaScript values\<close>

text \<open>
  The documents \<^verbatim>\<open>utils.ts\<close> handles are untyped (\<^verbatim>\<open>any\<close>): what \<^verbatim>\<open>JSON.parse\<close>
  returns and what object literals build. An object is the list of its own properties
  in insertion order; \<open>JUndefined\<close> is \<^verbatim>\<open>undefined\<close>, the value of a missing property.
  Numbers are the integers below \<open>10\<^sup>2\<^sup>1\<close> in magnitude, which print in full digits.
  Inherited (prototype) properties are not part of the model.
\<close>

datatype json =
    JUndefined
  | JNull
  | JBool bool
  | JNum int
  | JStr string
  | JArr "json list"
  | JObj "(string \<times> json) list"

subsection \<open>Property keys and their enumeration order\<close>

text \<open>
  An array index is a canonical numeric string below \<open>2\<^sup>3\<^sup>2 - 1\<close>. The own keys of an
  object enumerate with the array indices first, in ascending numeric order, then the
  other keys in insertion order; \<^verbatim>\<open>Object.keys\<close>, the spread \<^verbatim>\<open>{...o}\<close> and
  \<^verbatim>\<open>JSON.stringify\<close> all follow that order.
\<close>

definition is_digit :: "char \<Rightarrow> bool" where
  "is_digit c = (CHR ''0'' \<le> c \<and> c \<le> CHR ''9'')"

definition digits_val :: "string \<Rightarrow> nat" where
  "digits_val s = foldl (\<lambda>n c. 10 * n + (of_char c - 48)) 0 s"

definition is_array_index :: "string \<Rightarrow> bool" where
  "is_array_index s =
     (s \<noteq> [] \<and> list_all is_digit s \<and> (s = ''0'' \<or> hd s \<noteq> CHR ''0'')
      \<and> digits_val s < 4294967295)"

definition own_entries :: "(string \<times> 'v) list \<Rightarrow> (string \<times> 'v) list" where
  "own_entries obj =
     sort_key (\<lambda>p. digits_val (fst p)) (filter (\<lambda>p. is_array_index (fst p)) obj)
     @ filter (\<lambda>p. \<not> is_array_index (fst p)) obj"

definition Object_keys :: "(string \<times> 'v) list \<Rightarrow> string list" where
  "Object_keys obj = map fst (own_entries obj)"

subsection \<open>Reading and writing properties\<close>

text \<open>\<^verbatim>\<open>o[k]\<close>: a \<^verbatim>\<open>TypeError\<close> on \<^verbatim>\<open>undefined\<close> and \<^verbatim>\<open>null\<close>, \<^verbatim>\<open>undefined\<close> for a key
  the value does not have.\<close>

fun js_get :: "json \<Rightarrow> string \<Rightarrow> error + json" where
  "js_get JUndefined k = Inl TypeError"
| "js_get JNull k = Inl TypeError"
| "js_get (JObj ps) k = Inr (case map_of ps k of Some v \<Rightarrow> v | None \<Rightarrow> JUndefined)"
| "js_get (JArr xs) k =
     Inr (if k = ''length'' then JNum (int (length xs))
          else if is_array_index k \<and> digits_val k < length xs then xs ! digits_val k
          else JUndefined)"
| "js_get (JStr s) k =
     Inr (if k = ''length'' then JNum (int (length s))
          else if is_array_index k \<and> digits_val k < length s then JStr [s ! digits_val k]
          else JUndefined)"
| "js_get (JBool b) k = Inr JUndefined"
| "js_get (JNum n) k = Inr JUndefined"

text \<open>A chain of property reads, \<^verbatim>\<open>o[k1][k2]...\<close>.\<close>

fun json_at :: "json \<Rightarrow> string list \<Rightarrow> error + json" where
  "json_at v [] = Inr v"
| "json_at v (k # ks) = (case js_get v k of Inl e \<Rightarrow> Inl e | Inr w \<Rightarrow> json_at w ks)"

text \<open>The target name has the type \<^verbatim>\<open>'eslint' | 'lint'\<close>.\<close>

datatype TargetName = Eslint | Lint

fun target_key :: "TargetName \<Rightarrow> string" where
  "target_key Eslint = ''eslint''"
| "target_key Lint = ''lint''"

text \<open>
  \<^verbatim>\<open>o[targetName] = v\<close>, giving the value \<^verbatim>\<open>o\<close> has afterwards. On an object the
  property is replaced where it stands or added last. On an array it is a named
  property, which no later read of the document and no serialisation sees. On
  \<^verbatim>\<open>undefined\<close>, \<^verbatim>\<open>null\<close> and (the module is strict code) on a primitive it is a
  \<^verbatim>\<open>TypeError\<close>.
\<close>

fun assign_target :: "json \<Rightarrow> TargetName \<Rightarrow> json \<Rightarrow> error + json" where
  "assign_target (JObj ps) t v = Inr (JObj (AList.update (target_key t) v ps))"
| "assign_target (JArr xs) t v = Inr (JArr xs)"
| "assign_target _ t v = Inl TypeError"

text \<open>
  The source changes the \<^verbatim>\<open>architect\<close> object in place, through the reference it
  read from the document. In the model the changed member is put back where it was
  read: \<open>replace_member o k v\<close> is \<^verbatim>\<open>o\<close> with the member at \<^verbatim>\<open>k\<close>, which it has,
  replaced by \<^verbatim>\<open>v\<close>.
\<close>

fun replace_member :: "json \<Rightarrow> string \<Rightarrow> json \<Rightarrow> json" where
  "replace_member (JObj ps) k v = JObj (AList.update k v ps)"
| "replace_member (JArr xs) k v =
     (if is_array_index k \<and> digits_val k < length xs then JArr (xs[digits_val k := v])
      else JArr xs)"
| "replace_member w k v = w"

subsection \<open>Coercions\<close>

text \<open>Truthiness, as \<^verbatim>\<open>if (x)\<close> and \<^verbatim>\<open>!x\<close> test it.\<close>

fun truthy :: "json \<Rightarrow> bool" where
  "truthy JUndefined = False"
| "truthy JNull = False"
| "truthy (JBool b) = b"
| "truthy (JNum n) = (n \<noteq> 0)"
| "truthy (JStr s) = (s \<noteq> [])"
| "truthy (JArr xs) = True"
| "truthy (JObj ps) = True"

fun nat_digits :: "nat \<Rightarrow> string" where
  "nat_digits n =
     (if n < 10 then [char_of (48 + n)]
      else nat_digits (n div 10) @ [char_of (48 + n mod 10)])"

definition int_text :: "int \<Rightarrow> string" where
  "int_text i = (if i < 0 then CHR ''-'' # nat_digits (nat (- i)) else nat_digits (nat i))"

text \<open>\<^verbatim>\<open>Array.prototype.join(',')\<close> on texts.\<close>

fun comma_join :: "string list \<Rightarrow> string" where
  "comma_join [] = []"
| "comma_join [x] = x"
| "comma_join (x # y # zs) = x @ '','' @ comma_join (y # zs)"

text \<open>The text a template literal \<^verbatim>\<open>`${x}`\<close> inserts for a value.\<close>

fun to_text :: "json \<Rightarrow> string" where
  "to_text JUndefined = ''undefined''"
| "to_text JNull = ''null''"
| "to_text (JBool b) = (if b then ''true'' else ''false'')"
| "to_text (JNum n) = int_text n"
| "to_text (JStr s) = s"
| "to_text (JArr xs) =
     comma_join (map (\<lambda>x. if x = JUndefined \<or> x = JNull then [] else to_text x) xs)"
| "to_text (JObj ps) = ''[object Object]''"

section \<open>The host tree\<close>

text \<open>
  The \<^verbatim>\<open>Tree\<close> is the schematics framework's, supplied by the caller. It is modelled
  as a store of files: each file is held under the list of the non-empty segments of
  its path, with its contents. The host looks a path up from the root, as
  \<^verbatim>\<open>'/' + path\<close>, so a path argument that is \<^verbatim>\<open>undefined\<close> (\<open>None\<close>) names the file
  \<^verbatim>\<open>/undefined\<close>. The model takes a path by its segments as they are written; what the
  host makes of \<^verbatim>\<open>.\<close>, \<^verbatim>\<open>..\<close> and backslashes in a path it is given is not modelled.
\<close>

type_synonym tree = "(string list \<times> string) list"

definition path_key :: "string \<Rightarrow> string list" where
  "path_key path = filter (\<lambda>s. s \<noteq> []) (split_slash path)"

text \<open>The text a template literal inserts for a path argument.\<close>

fun path_text :: "string option \<Rightarrow> string" where
  "path_text None = ''undefined''"
| "path_text (Some p) = p"

fun host_read :: "tree \<Rightarrow> string option \<Rightarrow> string option" where
  "host_read host None = map_of host (path_key ''/undefined'')"
| "host_read host (Some path) = map_of host (path_key path)"

definition host_exists :: "tree \<Rightarrow> string option \<Rightarrow> bool" where
  "host_exists host path = (host_read host path \<noteq> None)"

definition host_create :: "tree \<Rightarrow> string \<Rightarrow> string \<Rightarrow> error + tree" where
  "host_create host path content =
     (if host_exists host (Some path) then Inl (FileAlreadyExistException path)
      else Inr (host @ [(path_key path, content)]))"

fun host_overwrite :: "tree \<Rightarrow> string option \<Rightarrow> string \<Rightarrow> error + tree" where
  "host_overwrite host None content =
     (if \<not> host_exists host None then Inl (FileDoesNotExistException ''undefined'')
      else Inr (AList.update (path_key ''/undefined'') content host))"
| "host_overwrite host (Some path) content =
     (if \<not> host_exists host (Some path) then Inl (FileDoesNotExistException path)
      else Inr (AList.update (path_key path) content host))"

text \<open>
  \<^verbatim>\<open>getDir(path)\<close> throws for the path of a file. Otherwise it gives the names of the
  files directly in the directory and the names of its subdirectories, each once, in
  the order of the store, a subdirectory where its first file stands.
\<close>

definition first_occurrences :: "'a list \<Rightarrow> 'a list" where
  "first_occurrences xs = rev (remdups (rev xs))"





section \<open>What the source takes from the language and from \<^verbatim>\<open>strip-json-comments\<close>\<close>

text \<open>
  \<^verbatim>\<open>stripJsonComments\<close>, \<^verbatim>\<open>JSON.parse\<close> and \<^verbatim>\<open>JSON.stringify\<close> are parameters of the
  model. \<open>JSON_parse\<close> gives the parsed value, or the message of the \<^verbatim>\<open>SyntaxError\<close> it
  throws. \<open>JSON_stringify v n\<close> is \<^verbatim>\<open>JSON.stringify(v, null, n)\<close>, which is
  \<^verbatim>\<open>undefined\<close> (\<open>None\<close>) for a value that has no JSON text.
\<close>

record externals =
  stripJsonComments :: "string \<Rightarrow> string"
  JSON_parse :: "string \<Rightarrow> string + json"
  JSON_stringify :: "json \<Rightarrow> nat \<Rightarrow> string option"

section \<open>\<^verbatim>\<open>utils.ts\<close>\<close>

subsection \<open>Reading and updating JSON files\<close>

definition readJsonInTree :: "externals \<Rightarrow> tree \<Rightarrow> string option \<Rightarrow> error + json" where
  "readJsonInTree E host path =
     (if \<not> host_exists host path then Inl (Error (''Cannot find '' @ path_text path))
      else case host_read host path of
        None \<Rightarrow> Inl TypeError
      | Some buffer \<Rightarrow>
          (let contents = stripJsonComments E buffer
           in case JSON_parse E contents of
                Inr v \<Rightarrow> Inr v
              | Inl message \<Rightarrow>
                  Inl (Error (''Cannot parse '' @ path_text path @ '': '' @ message))))"

definition serializeJson :: "externals \<Rightarrow> json \<Rightarrow> string" where
  "serializeJson E json =
     (case JSON_stringify E json 2 of None \<Rightarrow> ''undefined'' | Some text \<Rightarrow> text)
     @ [CHR 0x0A]"

text \<open>
  A callback may throw; the context is passed through to it and not looked at.
\<close>

definition updateJsonInTree ::
  "externals \<Rightarrow> string \<Rightarrow> (json \<Rightarrow> 'ctx \<Rightarrow> error + json) \<Rightarrow> tree \<Rightarrow> 'ctx \<Rightarrow> error + tree"
  where
  "updateJsonInTree E path callback host context =
     (if \<not> host_exists host (Some path) then
        (case callback (JObj []) context of
           Inl e \<Rightarrow> Inl e
         | Inr v \<Rightarrow> host_create host path (serializeJson E v))
      else
        (case readJsonInTree E host (Some path) of
           Inl e \<Rightarrow> Inl e
         | Inr json \<Rightarrow>
             (case callback json context of
                Inl e \<Rightarrow> Inl e
              | Inr v \<Rightarrow> host_overwrite host (Some path) (serializeJson E v))))"

subsection \<open>The workspace file\<close>

definition possibleFiles :: "string list" where
  "possibleFiles = [''/workspace.json'', ''/angular.json'', ''/.angular.json'']"

text \<open>\<^verbatim>\<open>possibleFiles.filter(...)[0]\<close>: \<^verbatim>\<open>undefined\<close> when nothing is left.\<close>

definition getWorkspacePath :: "tree \<Rightarrow> string option" where
  "getWorkspacePath host =
     (case filter (\<lambda>path. host_exists host (Some path)) possibleFiles of
        [] \<Rightarrow> None
      | path # _ \<Rightarrow> Some path)"

definition getProjectConfig :: "externals \<Rightarrow> tree \<Rightarrow> string \<Rightarrow> error + json" where
  "getProjectConfig E host name =
     (case readJsonInTree E host (getWorkspacePath host) of
        Inl e \<Rightarrow> Inl e
      | Inr workspaceJson \<Rightarrow>
          (case json_at workspaceJson [''projects'', name] of
             Inl e \<Rightarrow> Inl e
           | Inr projectConfig \<Rightarrow>
               if \<not> truthy projectConfig
               then Inl (Error (''Cannot find project '' @ [CHR 0x27] @ name @ [CHR 0x27]))
               else Inr projectConfig))"

definition updateWorkspaceInTree ::
  "externals \<Rightarrow> (json \<Rightarrow> 'ctx \<Rightarrow> tree \<Rightarrow> error + json) \<Rightarrow> tree \<Rightarrow> 'ctx \<Rightarrow> error + tree"
  where
  "updateWorkspaceInTree E callback host context =
     (let path = getWorkspacePath host
      in case readJsonInTree E host path of
           Inl e \<Rightarrow> Inl e
         | Inr json \<Rightarrow>
             (case callback json context host of
                Inl e \<Rightarrow> Inl e
              | Inr v \<Rightarrow> host_overwrite host path (serializeJson E v)))"

subsection \<open>The lint target\<close>

definition eslintTargetConfig :: "json \<Rightarrow> json" where
  "eslintTargetConfig lintFilePatternsRoot =
     JObj [(''builder'', JStr ''@angular-eslint/builder:lint''),
           (''options'', JObj [(''lintFilePatterns'',
              JArr [JStr (to_text lintFilePatternsRoot @ ''/**/*.ts''),
                    JStr (to_text lintFilePatternsRoot @ ''/**/*.html'')])])]"

text \<open>
  The callback \<^verbatim>\<open>addESLintTargetToProject\<close> hands to \<^verbatim>\<open>updateWorkspaceInTree\<close>.
\<close>

definition addESLintTarget :: "string \<Rightarrow> TargetName \<Rightarrow> json \<Rightarrow> error + json" where
  "addESLintTarget projectName targetName workspaceJson =
     (case js_get workspaceJson ''projects'' of
        Inl e \<Rightarrow> Inl e
      | Inr projects \<Rightarrow>
     (case js_get projects projectName of
        Inl e \<Rightarrow> Inl e
      | Inr existingProjectConfig \<Rightarrow>
     (case js_get existingProjectConfig ''root'' of
        Inl e \<Rightarrow> Inl e
      | Inr root \<Rightarrow>
     (let lintFilePatternsRoot = (if root = JStr [] then JStr ''src'' else root)
      in case js_get existingProjectConfig ''architect'' of
        Inl e \<Rightarrow> Inl e
      | Inr architect \<Rightarrow>
     (case assign_target architect targetName (eslintTargetConfig lintFilePatternsRoot) of
        Inl e \<Rightarrow> Inl e
      | Inr architect' \<Rightarrow>
          Inr (replace_member workspaceJson ''projects''
                (replace_member projects projectName
                  (replace_member existingProjectConfig ''architect'' architect'))))))))"

definition addESLintTargetToProject ::
  "externals \<Rightarrow> string \<Rightarrow> TargetName \<Rightarrow> tree \<Rightarrow> 'ctx \<Rightarrow> error + tree" where
  "addESLintTargetToProject E projectName targetName =
     updateWorkspaceInTree E
       (\<lambda>workspaceJson context host. addESLintTarget projectName targetName workspaceJson)"

subsection \<open>Listing the files of a directory\<close>




subsection \<open>ESLint configurations\<close>

text \<open>The project type is compared as the text it is at run time.\<close>

definition setESLintProjectBasedOnProjectType :: "string \<Rightarrow> string \<Rightarrow> json" where
  "setESLintProjectBasedOnProjectType projectRoot projectType =
     (let project = JUndefined;
          project = (if projectType = ''application''
                     then JArr [JStr (projectRoot @ ''/tsconfig.app.json''),
                                JStr (projectRoot @ ''/tsconfig.spec.json''),
                                JStr (projectRoot @ ''/e2e/tsconfig.json'')]
                     else project);
          project = (if projectType = ''library''
                     then JArr [JStr (projectRoot @ ''/tsconfig.lib.json''),
                                JStr (projectRoot @ ''/tsconfig.spec.json'')]
                     else project)
      in project)"

definition selectorRules :: "string \<Rightarrow> json" where
  "selectorRules prefix =
     JObj [(''@angular-eslint/directive-selector'',
              JArr [JStr ''error'',
                    JObj [(''type'', JStr ''attribute''), (''prefix'', JStr prefix),
                          (''style'', JStr ''camelCase'')]]),
           (''@angular-eslint/component-selector'',
              JArr [JStr ''error'',
                    JObj [(''type'', JStr ''element''), (''prefix'', JStr prefix),
                          (''style'', JStr ''kebab-case'')]])]"

text \<open>
  The prefix is a string or \<^verbatim>\<open>null\<close> (\<open>None\<close>); \<^verbatim>\<open>if (prefix)\<close> holds for a string
  that is not empty.
\<close>

definition createRootESLintConfig :: "string option \<Rightarrow> json" where
  "createRootESLintConfig prefix =
     (let codeRules = (case prefix of
                         None \<Rightarrow> JObj []
                       | Some p \<Rightarrow> if p \<noteq> [] then selectorRules p else JObj [])
      in JObj [(''root'', JBool True),
               (''ignorePatterns'', JArr [JStr ''projects/**/*'']),
               (''overrides'', JArr [
                  JObj [(''files'', JArr [JStr ''*.ts'']),
                        (''parserOptions'',
                           JObj [(''project'', JArr [JStr ''tsconfig.json'',
                                                     JStr ''e2e/tsconfig.json'']),
                                 (''createDefaultProgram'', JBool True)]),
                        (''extends'',
                           JArr [JStr ''plugin:@angular-eslint/recommended'',
                                 JStr ''plugin:@angular-eslint/template/process-inline-templates'']),
                        (''rules'', codeRules)],
                  JObj [(''files'', JArr [JStr ''*.html'']),
                        (''extends'', JArr [JStr ''plugin:@angular-eslint/template/recommended'']),
                        (''rules'', JObj [])]])])"

definition createProjectESLintConfig ::
  "string \<Rightarrow> string \<Rightarrow> string \<Rightarrow> string \<Rightarrow> error + json" where
  "createProjectESLintConfig rootPath projectRoot projectType prefix =
     (case offsetFromRoot rootPath of
        Inl e \<Rightarrow> Inl e
      | Inr offset \<Rightarrow>
          Inr (JObj [(''extends'', JStr (offset @ ''.eslintrc.json'')),
                     (''ignorePatterns'', JArr [JStr ''!**/*'']),
                     (''overrides'', JArr [
                        JObj [(''files'', JArr [JStr ''*.ts'']),
                              (''parserOptions'',
                                 JObj [(''project'',
                                          setESLintProjectBasedOnProjectType projectRoot
                                            projectType),
                                       (''createDefaultProgram'', JBool True)]),
                              (''rules'', selectorRules prefix)],
                        JObj [(''files'', JArr [JStr ''*.html'']),
                              (''rules'', JObj [])]])]))"

subsection \<open>Sorting an object by its keys\<close>

text \<open>
  \<^verbatim>\<open>Object.keys(obj).sort().reduce((result, key) => ({...result, [key]: obj[key]}), {})\<close>:
  \<^verbatim>\<open>sort()\<close> without a comparison orders the keys as strings. The package is built for
  a target without object spread, where the step is
  \<^verbatim>\<open>Object.assign(Object.assign({}, result), { [key]: obj[key] })\<close>. \<^verbatim>\<open>Object.assign\<close>
  sets the own properties of the source on the target by assignment, in the source's
  enumeration order; an assignment to \<^verbatim>\<open>__proto__\<close> goes to the setter that every plain
  object inherits and adds no property (the prototype it may change is not part of the
  model).
\<close>

definition own_value :: "(string \<times> json) list \<Rightarrow> string \<Rightarrow> json" where
  "own_value obj key = (case map_of obj key of Some v \<Rightarrow> v | None \<Rightarrow> JUndefined)"

definition assign_property ::
  "(string \<times> json) list \<Rightarrow> string \<times> json \<Rightarrow> (string \<times> json) list" where
  "assign_property target p =
     (if fst p = ''__proto__'' then target else AList.update (fst p) (snd p) target)"

definition Object_assign ::
  "(string \<times> json) list \<Rightarrow> (string \<times> json) list \<Rightarrow> (string \<times> json) list" where
  "Object_assign target source =
     fold (\<lambda>p t. assign_property t p) (own_entries source) target"

text \<open>The function handed to \<^verbatim>\<open>reduce\<close>.\<close>

definition reducer ::
  "(string \<times> json) list \<Rightarrow> (string \<times> json) list \<Rightarrow> string \<Rightarrow> (string \<times> json) list"
  where
  "reducer obj result key =
     Object_assign (Object_assign [] result) [(key, own_value obj key)]"

definition sortObjectByKeys :: "(string \<times> json) list \<Rightarrow> (string \<times> json) list" where
  "sortObjectByKeys obj =
     fold (\<lambda>key result. reducer obj result key) (sort (Object_keys obj)) []"

section \<open>Sample data\<close>

text \<open>
  A small workspace for the worked examples below: a host with a workspace file, a file
  that is not JSON and some sources, and an instance of the externals: it cuts a line
  comment, reads the two texts the examples need, and writes a value as indented JSON
  text, the properties in insertion order and the strings without escapes.
\<close>

definition line_break :: "nat \<Rightarrow> nat \<Rightarrow> string" where
  "line_break n ind = (if n = 0 then [] else CHR 0x0A # replicate ind CHR '' '')"

definition quoted :: "string \<Rightarrow> string" where
  "quoted s = CHR 0x22 # s @ [CHR 0x22]"

fun between :: "string \<Rightarrow> string list \<Rightarrow> string" where
  "between sep [] = []"
| "between sep [x] = x"
| "between sep (x # y # zs) = x @ sep @ between sep (y # zs)"

fun json_text :: "nat \<Rightarrow> nat \<Rightarrow> json \<Rightarrow> string"
  and items_text :: "nat \<Rightarrow> nat \<Rightarrow> json list \<Rightarrow> string list"
  and props_text :: "nat \<Rightarrow> nat \<Rightarrow> (string \<times> json) list \<Rightarrow> string list" where
  "json_text n ind JUndefined = ''null''"
| "json_text n ind JNull = ''null''"
| "json_text n ind (JBool b) = (if b then ''true'' else ''false'')"
| "json_text n ind (JNum i) = int_text i"
| "json_text n ind (JStr s) = quoted s"
| "json_text n ind (JArr xs) =
     (if xs = [] then ''[]''
      else ''['' @ line_break n (ind + n)
           @ between ('','' @ line_break n (ind + n)) (items_text n (ind + n) xs)
           @ line_break n ind @ '']'')"
| "json_text n ind (JObj ps) =
     (let lines = props_text n (ind + n) ps
      in if lines = [] then ''{}''
         else ''{'' @ line_break n (ind + n)
              @ between ('','' @ line_break n (ind + n)) lines
              @ line_break n ind @ ''}'')"
| "items_text n ind [] = []"
| "items_text n ind (x # xs) = json_text n ind x # items_text n ind xs"
| "props_text n ind [] = []"
| "props_text n ind (p # ps) =
     (if snd p = JUndefined then props_text n ind ps
      else (quoted (fst p) @ (if n = 0 then '':'' else '': '') @ json_text n ind (snd p))
           # props_text n ind ps)"

fun cut_line_comment :: "string \<Rightarrow> string" where
  "cut_line_comment (a # b # cs) =
     (if a = CHR ''/'' \<and> b = CHR ''/'' then [] else a # cut_line_comment (b # cs))"
| "cut_line_comment cs = cs"

definition sample_app_architect :: "(string \<times> json) list" where
  "sample_app_architect = [(''build'', JObj []), (''lint'', JNull)]"

definition sample_app :: "(string \<times> json) list" where
  "sample_app = [(''root'', JStr []), (''projectType'', JStr ''application''),
                 (''prefix'', JStr ''app''), (''architect'', JObj sample_app_architect)]"

definition sample_foo :: "(string \<times> json) list" where
  "sample_foo = [(''root'', JStr ''libs/foo''), (''projectType'', JStr ''library''),
                 (''prefix'', JStr ''lib''), (''architect'', JObj [])]"

definition sample_projects :: "(string \<times> json) list" where
  "sample_projects = [(''app'', JObj sample_app), (''foo'', JObj sample_foo)]"

definition sample_fields :: "(string \<times> json) list" where
  "sample_fields = [(''version'', JNum 1), (''projects'', JObj sample_projects)]"

definition sample_workspace :: json where
  "sample_workspace = JObj sample_fields"

definition sample_externals :: externals where
  "sample_externals =
     \<lparr> stripJsonComments = cut_line_comment,
       JSON_parse = (\<lambda>text. if text = ''{}'' then Inr (JObj [])
                            else if text = ''WORKSPACE'' then Inr sample_workspace
                            else Inl ''Unexpected token''),
       JSON_stringify = (\<lambda>v n. if v = JUndefined then None else Some (json_text n 0 v)) \<rparr>"

definition sample_host :: tree where
  "sample_host = [([''angular.json''], ''WORKSPACE// the workspace''),
                  ([''src'', ''broken.json''], ''{// nothing''),
                  ([''src'', ''main.ts''], ''main''),
                  ([''src'', ''app'', ''app.component.ts''], ''component''),
                  ([''src'', ''app'', ''app.component.html''], ''template''),
                  ([''src'', ''app'', ''shared'', ''util.ts''], ''util''),
                  ([''e2e'', ''app.e2e-spec.ts''], ''spec'')]"


section \<open>Well-formed trees and what a listing should hold\<close>








section \<open>Properties of \<^verbatim>\<open>offsetFromRoot\<close>\<close>

lemma offset_loop_replicate:
  "offset_loop i n offset = offset @ concat (replicate (n - i) ''../'')"
proof (induction i n offset rule: offset_loop.induct)
  case (1 i n offset)
  show ?case
  proof (cases "i < n")
    case True
    then have "n - i = Suc (n - Suc i)" by simp
    with True 1 show ?thesis
      by (simp del: offset_loop.simps add: offset_loop.simps [of i])
  next
    case False
    then show ?thesis by simp
  qed
qed

lemma split_on_nonempty: "split_on P s \<noteq> []"
  by (induction s) auto

lemma length_split_on: "length (split_on P s) = Suc (length (filter P s))"
  by (induction s) (auto simp: split_on_nonempty)

text \<open>
  C1, as the code has it. Where \<^verbatim>\<open>normalize\<close> accepts the path, \<^verbatim>\<open>offsetFromRoot\<close>
  returns \<^verbatim>\<open>../\<close> once per segment of the normalized path, and the segments are one
  more than the slashes of the normalized path, so a leading slash adds an empty leading
  segment. The empty path gives \<^verbatim>\<open>../\<close>, \<^verbatim>\<open>a/b\<close> gives \<^verbatim>\<open>../../\<close> (two segments, none is
  implied in front), and \<^verbatim>\<open>/a/b\<close> gives \<^verbatim>\<open>../../../\<close>.
\<close>

theorem offsetFromRoot_per_segment:
  "(normalize_path p = Inr np \<longrightarrow>
      offsetFromRoot p = Inr (concat (replicate (length (split_slash np)) ''../''))
      \<and> length (split_slash np) = Suc (length (filter (\<lambda>c. c = CHR ''/'') np)))
   \<and> offsetFromRoot [] = Inr ''../''
   \<and> offsetFromRoot ''a/b'' = Inr ''../../''
   \<and> offsetFromRoot ''/a/b'' = Inr ''../../../''"
proof -
  have ex1: "offsetFromRoot [] = Inr ''../''" by code_simp
  have ex2: "offsetFromRoot ''a/b'' = Inr ''../../''" by code_simp
  have ex3: "offsetFromRoot ''/a/b'' = Inr ''../../../''" by code_simp
  show ?thesis
    using ex1 ex2 ex3
    by (simp add: offsetFromRoot_def offset_loop_replicate split_slash_def length_split_on
        del: offset_loop.simps)
qed

theorem offsetFromRoot_per_segment_witness:
  "normalize_path ''/libs/foo'' = Inr ''/libs/foo''
   \<and> offsetFromRoot ''/libs/foo'' = Inr ''../../../''"
proof -
  have n: "normalize_path ''/libs/foo'' = Inr ''/libs/foo''" by code_simp
  have s: "split_slash ''/libs/foo'' = [[], ''libs'', ''foo'']" by code_simp
  from offsetFromRoot_per_segment [of "''/libs/foo''" "''/libs/foo''"] n s
  show ?thesis by simp
qed

text \<open>
  C1 as the specification words it gives \<^verbatim>\<open>../../../\<close> for \<^verbatim>\<open>a/b\<close>; the code returns
  \<^verbatim>\<open>../../\<close>.
\<close>

theorem offsetFromRoot_a_b_counterexample:
  "offsetFromRoot ''a/b'' \<noteq> Inr ''../../../''"
  by code_simp

section \<open>Properties of \<^verbatim>\<open>readJsonInTree\<close>\<close>

text \<open>
  C2. When the path is not in the tree \<^verbatim>\<open>readJsonInTree\<close> fails with
  \<^verbatim>\<open>Cannot find <path>\<close>, which is no parse error. When the path holds a file, the
  comments are stripped from its contents and the rest is parsed: the result is the
  parsed value, or the error \<^verbatim>\<open>Cannot parse <path>: <message>\<close> with the parser's
  message.
\<close>

theorem readJsonInTree_outcomes:
  "(\<not> host_exists host (Some path) \<longrightarrow>
      readJsonInTree E host (Some path) = Inl (Error (''Cannot find '' @ path))
      \<and> (\<forall>m. readJsonInTree E host (Some path)
                \<noteq> Inl (Error (''Cannot parse '' @ path @ '': '' @ m))))
   \<and> (host_read host (Some path) = Some buffer \<longrightarrow>
        readJsonInTree E host (Some path) =
          (case JSON_parse E (stripJsonComments E buffer) of
             Inr v \<Rightarrow> Inr v
           | Inl message \<Rightarrow> Inl (Error (''Cannot parse '' @ path @ '': '' @ message))))"
  by (auto simp: readJsonInTree_def host_exists_def split: sum.splits)

theorem readJsonInTree_outcomes_witness:
  "\<not> host_exists sample_host (Some ''/tslint.json'')
   \<and> readJsonInTree sample_externals sample_host (Some ''/tslint.json'')
       = Inl (Error ''Cannot find /tslint.json'')
   \<and> host_read sample_host (Some ''/angular.json'') = Some ''WORKSPACE// the workspace''
   \<and> readJsonInTree sample_externals sample_host (Some ''/angular.json'') = Inr sample_workspace
   \<and> host_read sample_host (Some ''src/broken.json'') = Some ''{// nothing''
   \<and> readJsonInTree sample_externals sample_host (Some ''src/broken.json'')
       = Inl (Error ''Cannot parse src/broken.json: Unexpected token'')"
proof -
  have r1: "host_read sample_host (Some ''/tslint.json'') = None" by code_simp
  have r2: "host_read sample_host (Some ''/angular.json'') = Some ''WORKSPACE// the workspace''"
    by code_simp
  have r3: "host_read sample_host (Some ''src/broken.json'') = Some ''{// nothing''"
    by code_simp
  have p2: "JSON_parse sample_externals
              (stripJsonComments sample_externals ''WORKSPACE// the workspace'')
            = Inr sample_workspace"
    by (simp add: sample_externals_def)
  have p3: "JSON_parse sample_externals (stripJsonComments sample_externals ''{// nothing'')
            = Inl ''Unexpected token''"
    by (simp add: sample_externals_def)
  from r1 have e1: "\<not> host_exists sample_host (Some ''/tslint.json'')"
    by (simp add: host_exists_def)
  show ?thesis
    using e1 r2 r3 p2 p3
      readJsonInTree_outcomes [where host = sample_host and path = "''/tslint.json''"
        and E = sample_externals]
      readJsonInTree_outcomes [where host = sample_host and path = "''/angular.json''"
        and buffer = "''WORKSPACE// the workspace''" and E = sample_externals]
      readJsonInTree_outcomes [where host = sample_host and path = "''src/broken.json''"
        and buffer = "''{// nothing''" and E = sample_externals]
    by simp
qed

section \<open>Properties of \<^verbatim>\<open>updateJsonInTree\<close> and of the workspace locator\<close>

lemma host_read_create:
  "\<not> host_exists host (Some path) \<Longrightarrow>
     host_read (host @ [(path_key path, content)]) (Some path) = Some content"
  by (simp add: host_exists_def map_add_def)

lemma host_read_overwrite:
  "host_read (AList.update (path_key path) content host) (Some path) = Some content"
  by (simp add: update_conv')

lemma keys_overwrite:
  "host_exists host (Some path) \<Longrightarrow>
     map fst (AList.update (path_key path) content host) = map fst host"
  by (auto simp: host_exists_def update_keys dest: map_of_SomeD intro: rev_image_eqI)

text \<open>
  C3. On a tree without the path, the rule of \<^verbatim>\<open>updateJsonInTree\<close> creates the file
  with the serialisation of what the callback makes of the empty object. On a tree where
  the path holds a file that parses, it overwrites that file, and adds none, with the
  serialisation of what the callback makes of the parsed contents. The serialisation is
  \<^verbatim>\<open>JSON.stringify\<close> with an indentation of 2, followed by a newline.
\<close>

theorem updateJsonInTree_creates_or_overwrites:
  "(\<not> host_exists host (Some path) \<longrightarrow> callback (JObj []) ctx = Inr v \<longrightarrow>
      updateJsonInTree E path callback host ctx
        = Inr (host @ [(path_key path, serializeJson E v)])
      \<and> host_read (host @ [(path_key path, serializeJson E v)]) (Some path)
          = Some (serializeJson E v))
   \<and> (host_read host (Some path) = Some buffer \<longrightarrow>
        JSON_parse E (stripJsonComments E buffer) = Inr current \<longrightarrow>
        callback current ctx = Inr v \<longrightarrow>
        (\<exists>host'. updateJsonInTree E path callback host ctx = Inr host'
           \<and> host_read host' (Some path) = Some (serializeJson E v)
           \<and> map fst host' = map fst host))
   \<and> serializeJson E v
        = (case JSON_stringify E v 2 of None \<Rightarrow> ''undefined'' | Some text \<Rightarrow> text)
          @ [CHR 0x0A]"
proof (intro conjI impI)
  assume a: "\<not> host_exists host (Some path)" and c: "callback (JObj []) ctx = Inr v"
  show "updateJsonInTree E path callback host ctx
        = Inr (host @ [(path_key path, serializeJson E v)])"
    using a c by (simp add: updateJsonInTree_def host_create_def)
  show "host_read (host @ [(path_key path, serializeJson E v)]) (Some path)
          = Some (serializeJson E v)"
    using a by (rule host_read_create)
next
  assume r: "host_read host (Some path) = Some buffer"
    and p: "JSON_parse E (stripJsonComments E buffer) = Inr current"
    and c: "callback current ctx = Inr v"
  from r have ex: "host_exists host (Some path)" by (simp add: host_exists_def)
  from r p have rd: "readJsonInTree E host (Some path) = Inr current"
    by (simp add: readJsonInTree_def host_exists_def)
  have "updateJsonInTree E path callback host ctx
          = Inr (AList.update (path_key path) (serializeJson E v) host)"
    using ex rd c by (simp add: updateJsonInTree_def)
  with ex show "\<exists>host'. updateJsonInTree E path callback host ctx = Inr host'
           \<and> host_read host' (Some path) = Some (serializeJson E v)
           \<and> map fst host' = map fst host"
    using host_read_overwrite keys_overwrite by blast
next
  show "serializeJson E v
        = (case JSON_stringify E v 2 of None \<Rightarrow> ''undefined'' | Some text \<Rightarrow> text)
          @ [CHR 0x0A]"
    by (simp add: serializeJson_def)
qed

theorem updateJsonInTree_creates_or_overwrites_witness:
  "\<not> host_exists sample_host (Some ''/.eslintrc.json'')
   \<and> updateJsonInTree sample_externals ''/.eslintrc.json'' (\<lambda>json ctx. Inr json)
        sample_host ()
      = Inr (sample_host @ [([''.eslintrc.json''], ''{}'' @ [CHR 0x0A])])
   \<and> host_read sample_host (Some ''angular.json'') = Some ''WORKSPACE// the workspace''
   \<and> (\<exists>host'. updateJsonInTree sample_externals ''angular.json'' (\<lambda>json ctx. Inr json)
                  sample_host () = Inr host'
         \<and> host_read host' (Some ''angular.json'')
             = Some (json_text 2 0 sample_workspace @ [CHR 0x0A]))"
proof -
  have r1: "host_read sample_host (Some ''/.eslintrc.json'') = None" by code_simp
  then have e1: "\<not> host_exists sample_host (Some ''/.eslintrc.json'')"
    by (simp add: host_exists_def)
  have k: "path_key ''/.eslintrc.json'' = [''.eslintrc.json'']" by code_simp
  have r2: "host_read sample_host (Some ''angular.json'') = Some ''WORKSPACE// the workspace''"
    by code_simp
  have p2: "JSON_parse sample_externals
              (stripJsonComments sample_externals ''WORKSPACE// the workspace'')
            = Inr sample_workspace"
    by (simp add: sample_externals_def)
  have s1: "serializeJson sample_externals (JObj []) = ''{}'' @ [CHR 0x0A]"
    by (simp add: serializeJson_def sample_externals_def)
  have "sample_workspace \<noteq> JUndefined" by (simp add: sample_workspace_def)
  then have s2: "serializeJson sample_externals sample_workspace
            = json_text 2 0 sample_workspace @ [CHR 0x0A]"
    by (simp add: serializeJson_def sample_externals_def)
  show ?thesis
    using e1 k r2 p2 s1 s2
      updateJsonInTree_creates_or_overwrites [where host = sample_host
        and path = "''/.eslintrc.json''" and callback = "\<lambda>json ctx. Inr json"
        and ctx = "()" and v = "JObj []" and E = sample_externals]
      updateJsonInTree_creates_or_overwrites [where host = sample_host
        and path = "''angular.json''" and callback = "\<lambda>json ctx. Inr json"
        and ctx = "()" and v = sample_workspace and current = sample_workspace
        and buffer = "''WORKSPACE// the workspace''" and E = sample_externals]
    by auto
qed

lemma undefined_path: "path_key ''/undefined'' = [''undefined'']"
  by code_simp

lemma host_exists_undefined: "host_exists host None = host_exists host (Some ''/undefined'')"
  by (simp add: host_exists_def)

text \<open>
  C4, as the code has it. \<^verbatim>\<open>getWorkspacePath\<close> returns the first of
  \<^verbatim>\<open>/workspace.json\<close>, \<^verbatim>\<open>/angular.json\<close>, \<^verbatim>\<open>/.angular.json\<close>, in that order, that exists
  in the tree, and \<^verbatim>\<open>undefined\<close> when none does; the reads that follow then fail with
  \<^verbatim>\<open>Cannot find undefined\<close>, provided the tree holds no file \<^verbatim>\<open>/undefined\<close>.
\<close>

theorem getWorkspacePath_first_existing:
  "getWorkspacePath host =
     (if host_exists host (Some ''/workspace.json'') then Some ''/workspace.json''
      else if host_exists host (Some ''/angular.json'') then Some ''/angular.json''
      else if host_exists host (Some ''/.angular.json'') then Some ''/.angular.json''
      else None)
   \<and> (getWorkspacePath host = None \<and> \<not> host_exists host (Some ''/undefined'') \<longrightarrow>
        readJsonInTree E host (getWorkspacePath host) = Inl (Error ''Cannot find undefined'')
        \<and> getProjectConfig E host name = Inl (Error ''Cannot find undefined'')
        \<and> updateWorkspaceInTree E callback host ctx
            = Inl (Error ''Cannot find undefined''))"
proof -
  have "getWorkspacePath host =
     (if host_exists host (Some ''/workspace.json'') then Some ''/workspace.json''
      else if host_exists host (Some ''/angular.json'') then Some ''/angular.json''
      else if host_exists host (Some ''/.angular.json'') then Some ''/.angular.json''
      else None)"
    by (simp add: getWorkspacePath_def possibleFiles_def)
  moreover have "readJsonInTree E host None = Inl (Error ''Cannot find undefined'')"
    if "\<not> host_exists host (Some ''/undefined'')"
    using that by (simp add: readJsonInTree_def host_exists_undefined)
  ultimately show ?thesis
    by (simp add: getProjectConfig_def updateWorkspaceInTree_def)
qed

theorem getWorkspacePath_first_existing_witness:
  "getWorkspacePath [] = None
   \<and> \<not> host_exists [] (Some ''/undefined'')
   \<and> readJsonInTree sample_externals [] (getWorkspacePath [])
        = Inl (Error ''Cannot find undefined'')
   \<and> getProjectConfig sample_externals [] ''app'' = Inl (Error ''Cannot find undefined'')
   \<and> getWorkspacePath sample_host = Some ''/angular.json''"
proof -
  have n: "getWorkspacePath [] = None"
    by (simp add: getWorkspacePath_def possibleFiles_def host_exists_def)
  have u: "\<not> host_exists [] (Some ''/undefined'')"
    by (simp add: host_exists_def)
  have e1: "\<not> host_exists sample_host (Some ''/workspace.json'')"
    unfolding host_exists_def by code_simp
  have e2: "host_exists sample_host (Some ''/angular.json'')"
    unfolding host_exists_def by code_simp
  show ?thesis
    using n u e1 e2
      getWorkspacePath_first_existing [where host = "[]" and E = sample_externals
        and name = "''app''" and callback = "\<lambda>json c h. Inr json" and ctx = "()"]
      getWorkspacePath_first_existing [where host = sample_host and E = sample_externals
        and name = "''app''" and callback = "\<lambda>json c h. Inr json" and ctx = "()"]
    by simp
qed

text \<open>
  C4 as the specification words it has the read fail with a NotFound error whenever none
  of the three files exists; on a tree that holds \<^verbatim>\<open>/undefined\<close> and none of the three,
  the locator returns \<^verbatim>\<open>undefined\<close> and the read returns the contents of that file.
\<close>

theorem getWorkspacePath_undefined_file_counterexample:
  "getWorkspacePath [([''undefined''], ''{}'')] = None
   \<and> readJsonInTree sample_externals [([''undefined''], ''{}'')]
         (getWorkspacePath [([''undefined''], ''{}'')])
       = Inr (JObj [])"
proof -
  have n: "getWorkspacePath [([''undefined''], ''{}'')] = None"
    unfolding getWorkspacePath_def possibleFiles_def host_exists_def by code_simp
  have "readJsonInTree sample_externals [([''undefined''], ''{}'')] None = Inr (JObj [])"
    by (simp add: readJsonInTree_def host_exists_def undefined_path sample_externals_def)
  with n show ?thesis by simp
qed

section \<open>Properties of \<^verbatim>\<open>addESLintTargetToProject\<close>\<close>

lemma addESLintTarget_result:
  assumes "map_of D ''projects'' = Some (JObj P)"
    and "map_of P name = Some (JObj C)"
    and "map_of C ''architect'' = Some (JObj A)"
  shows "addESLintTarget name t (JObj D) =
     Inr (JObj (AList.update ''projects''
       (JObj (AList.update name
         (JObj (AList.update ''architect''
           (JObj (AList.update (target_key t)
              (eslintTargetConfig
                 (if own_value C ''root'' = JStr [] then JStr ''src''
                  else own_value C ''root''))
              A)) C)) P)) D))"
  using assms by (simp add: addESLintTarget_def own_value_def Let_def split: option.splits)

lemma addESLintTargetToProject_result:
  assumes "getWorkspacePath host = Some wp"
    and "host_read host (Some wp) = Some buffer"
    and "JSON_parse E (stripJsonComments E buffer) = Inr doc"
    and "addESLintTarget name t doc = Inr doc'"
  shows "addESLintTargetToProject E name t host ctx
           = Inr (AList.update (path_key wp) (serializeJson E doc') host)"
  using assms
  by (simp add: addESLintTargetToProject_def updateWorkspaceInTree_def readJsonInTree_def
      host_exists_def)

lemma frame_level:
  assumes m: "map_of ps k = Some w"
    and sub: "\<And>ks'. ks = k # ks' \<Longrightarrow> json_at v ks' = json_at w ks'"
    and ne: "ks \<noteq> []"
  shows "json_at (JObj (AList.update k v ps)) ks = json_at (JObj ps) ks"
proof (cases ks)
  case Nil
  with ne show ?thesis by simp
next
  case (Cons k' ks')
  show ?thesis
  proof (cases "k' = k")
    case True
    with Cons sub m show ?thesis by (simp add: update_conv')
  next
    case False
    with Cons show ?thesis by (simp add: update_conv')
  qed
qed

lemma addESLintTarget_frame:
  assumes d: "map_of D ''projects'' = Some (JObj P)"
    and p: "map_of P name = Some (JObj C)"
    and c: "map_of C ''architect'' = Some (JObj A)"
    and r: "addESLintTarget name t (JObj D) = Inr doc'"
    and n1: "take (length ks) [''projects'', name, ''architect'', target_key t] \<noteq> ks"
    and n2: "take 4 ks \<noteq> [''projects'', name, ''architect'', target_key t]"
  shows "json_at doc' ks = json_at (JObj D) ks"
proof -
  let ?cfg = "eslintTargetConfig
                 (if own_value C ''root'' = JStr [] then JStr ''src''
                  else own_value C ''root'')"
  let ?A' = "JObj (AList.update (target_key t) ?cfg A)"
  let ?C' = "JObj (AList.update ''architect'' ?A' C)"
  let ?P' = "JObj (AList.update name ?C' P)"
  have doc': "doc' = JObj (AList.update ''projects'' ?P' D)"
    using addESLintTarget_result [OF d p c, of t] r by simp
  have lA: "json_at ?A' k4 = json_at (JObj A) k4"
    if "ks = ''projects'' # name # ''architect'' # k4" for k4
  proof (cases k4)
    case Nil
    with that n1 show ?thesis by simp
  next
    case (Cons t' rest)
    with that n2 have "t' \<noteq> target_key t" by auto
    with Cons show ?thesis by (simp add: update_conv')
  qed
  have lC: "json_at ?C' k3 = json_at (JObj C) k3"
    if "ks = ''projects'' # name # k3" for k3
  proof (rule frame_level [OF c])
    show "k3 \<noteq> []" using that n1 by auto
    show "json_at ?A' ks' = json_at (JObj A) ks'" if "k3 = ''architect'' # ks'" for ks'
      using lA that \<open>ks = ''projects'' # name # k3\<close> by simp
  qed
  have lP: "json_at ?P' k2 = json_at (JObj P) k2"
    if "ks = ''projects'' # k2" for k2
  proof (rule frame_level [OF p])
    show "k2 \<noteq> []" using that n1 by auto
    show "json_at ?C' ks' = json_at (JObj C) ks'" if "k2 = name # ks'" for ks'
      using lC that \<open>ks = ''projects'' # k2\<close> by simp
  qed
  have "json_at (JObj (AList.update ''projects'' ?P' D)) ks = json_at (JObj D) ks"
  proof (rule frame_level [OF d])
    show "ks \<noteq> []" using n1 by auto
    show "json_at ?P' ks' = json_at (JObj P) ks'" if "ks = ''projects'' # ks'" for ks'
      using lP that by simp
  qed
  with doc' show ?thesis by simp
qed

lemma addESLintTarget_entry:
  assumes d: "map_of D ''projects'' = Some (JObj P)"
    and p: "map_of P name = Some (JObj C)"
    and c: "map_of C ''architect'' = Some (JObj A)"
    and r: "addESLintTarget name t (JObj D) = Inr doc'"
  shows "json_at doc' [''projects'', name, ''architect'', target_key t] =
     Inr (eslintTargetConfig
                 (if own_value C ''root'' = JStr [] then JStr ''src''
                  else own_value C ''root''))"
  using addESLintTarget_result [OF d p c, of t] r by (auto simp: update_conv')

text \<open>
  C5. For a project of the workspace document that has an architect mapping, and a
  target name \<^verbatim>\<open>eslint\<close> or \<^verbatim>\<open>lint\<close>, \<^verbatim>\<open>addESLintTargetToProject\<close> overwrites the
  workspace file with a document that holds, in the project's architect mapping under
  the target name and whatever was there, the builder \<^verbatim>\<open>@angular-eslint/builder:lint\<close>
  with the patterns \<^verbatim>\<open>r/**/*.ts\<close> and \<^verbatim>\<open>r/**/*.html\<close>, where \<^verbatim>\<open>r\<close> is \<^verbatim>\<open>src\<close> when the
  project's root is the empty string and the text of the project's root otherwise.
\<close>

theorem addESLintTargetToProject_writes_target:
  assumes "getWorkspacePath host = Some wp"
    and "host_read host (Some wp) = Some buffer"
    and "JSON_parse E (stripJsonComments E buffer) = Inr (JObj D)"
    and "map_of D ''projects'' = Some (JObj P)"
    and "map_of P projectName = Some (JObj C)"
    and "map_of C ''architect'' = Some (JObj A)"
    and "r = (if own_value C ''root'' = JStr [] then ''src'' else to_text (own_value C ''root''))"
  shows "\<exists>host' doc'.
      addESLintTargetToProject E projectName targetName host ctx = Inr host'
      \<and> host_read host' (Some wp) = Some (serializeJson E doc')
      \<and> json_at doc' [''projects'', projectName, ''architect'', target_key targetName]
          = Inr (JObj [(''builder'', JStr ''@angular-eslint/builder:lint''),
                       (''options'', JObj [(''lintFilePatterns'',
                          JArr [JStr (r @ ''/**/*.ts''), JStr (r @ ''/**/*.html'')])])])"
proof -
  obtain doc' where r: "addESLintTarget projectName targetName (JObj D) = Inr doc'"
    using addESLintTarget_result [OF assms(4,5,6)] by blast
  have w: "addESLintTargetToProject E projectName targetName host ctx
           = Inr (AList.update (path_key wp) (serializeJson E doc') host)"
    using addESLintTargetToProject_result [OF assms(1,2,3) r] .
  have rd: "host_read (AList.update (path_key wp) (serializeJson E doc') host) (Some wp)
            = Some (serializeJson E doc')"
    by (simp add: update_conv')
  have "json_at doc' [''projects'', projectName, ''architect'', target_key targetName]
          = Inr (JObj [(''builder'', JStr ''@angular-eslint/builder:lint''),
                       (''options'', JObj [(''lintFilePatterns'',
                          JArr [JStr (r @ ''/**/*.ts''), JStr (r @ ''/**/*.html'')])])])"
    using addESLintTarget_entry [OF assms(4,5,6) r] assms(7)
    by (simp add: eslintTargetConfig_def)
  with w rd show ?thesis by blast
qed

text \<open>
  C10. The document \<^verbatim>\<open>addESLintTargetToProject\<close> writes differs from the one it read
  only at \<^verbatim>\<open>projects[projectName].architect[targetName]\<close>: a chain of property reads
  that neither leads to that place nor passes through it gives the same in both, so
  the other projects, the other targets of the project, the project's root, type and
  prefix and the other fields of the document are unchanged.
\<close>

theorem addESLintTargetToProject_frame:
  assumes "getWorkspacePath host = Some wp"
    and "host_read host (Some wp) = Some buffer"
    and "JSON_parse E (stripJsonComments E buffer) = Inr (JObj D)"
    and "map_of D ''projects'' = Some (JObj P)"
    and "map_of P projectName = Some (JObj C)"
    and "map_of C ''architect'' = Some (JObj A)"
  shows "\<exists>host' doc'.
      addESLintTargetToProject E projectName targetName host ctx = Inr host'
      \<and> host_read host' (Some wp) = Some (serializeJson E doc')
      \<and> (\<forall>ks. take (length ks) [''projects'', projectName, ''architect'', target_key targetName] \<noteq> ks
               \<and> take 4 ks \<noteq> [''projects'', projectName, ''architect'', target_key targetName]
             \<longrightarrow> json_at doc' ks = json_at (JObj D) ks)"
proof -
  obtain doc' where r: "addESLintTarget projectName targetName (JObj D) = Inr doc'"
    using addESLintTarget_result [OF assms(4,5,6)] by blast
  have w: "addESLintTargetToProject E projectName targetName host ctx
           = Inr (AList.update (path_key wp) (serializeJson E doc') host)"
    using addESLintTargetToProject_result [OF assms(1,2,3) r] .
  have rd: "host_read (AList.update (path_key wp) (serializeJson E doc') host) (Some wp)
            = Some (serializeJson E doc')"
    by (simp add: update_conv')
  have "\<forall>ks. take (length ks) [''projects'', projectName, ''architect'', target_key targetName] \<noteq> ks
               \<and> take 4 ks \<noteq> [''projects'', projectName, ''architect'', target_key targetName]
             \<longrightarrow> json_at doc' ks = json_at (JObj D) ks"
    using addESLintTarget_frame [OF assms(4,5,6) r] by blast
  with w rd show ?thesis by blast
qed

lemma sample_workspace_read:
  "getWorkspacePath sample_host = Some ''/angular.json''
   \<and> host_read sample_host (Some ''/angular.json'') = Some ''WORKSPACE// the workspace''
   \<and> JSON_parse sample_externals
         (stripJsonComments sample_externals ''WORKSPACE// the workspace'')
       = Inr (JObj sample_fields)"
proof -
  have r: "host_read sample_host (Some ''/angular.json'') = Some ''WORKSPACE// the workspace''"
    by code_simp
  have n: "host_read sample_host (Some ''/workspace.json'') = None" by code_simp
  have p: "JSON_parse sample_externals
         (stripJsonComments sample_externals ''WORKSPACE// the workspace'')
       = Inr (JObj sample_fields)"
    by (simp add: sample_externals_def sample_workspace_def)
  from r n p show ?thesis
    by (simp add: getWorkspacePath_def possibleFiles_def host_exists_def)
qed

lemma sample_shape:
  "map_of sample_fields ''projects'' = Some (JObj sample_projects)"
  "map_of sample_projects ''app'' = Some (JObj sample_app)"
  "map_of sample_projects ''foo'' = Some (JObj sample_foo)"
  "map_of sample_app ''architect'' = Some (JObj sample_app_architect)"
  "map_of sample_foo ''architect'' = Some (JObj [])"
  "own_value sample_app ''root'' = JStr []"
  "own_value sample_foo ''root'' = JStr ''libs/foo''"
  by (simp_all add: sample_fields_def sample_projects_def sample_app_def sample_foo_def
      own_value_def)

theorem addESLintTargetToProject_writes_target_witness:
  "(\<exists>host' doc'.
      addESLintTargetToProject sample_externals ''app'' Lint sample_host () = Inr host'
      \<and> host_read host' (Some ''/angular.json'') = Some (serializeJson sample_externals doc')
      \<and> json_at doc' [''projects'', ''app'', ''architect'', ''lint'']
          = Inr (JObj [(''builder'', JStr ''@angular-eslint/builder:lint''),
                       (''options'', JObj [(''lintFilePatterns'',
                          JArr [JStr ''src/**/*.ts'', JStr ''src/**/*.html''])])]))
   \<and> (\<exists>host' doc'.
      addESLintTargetToProject sample_externals ''foo'' Eslint sample_host () = Inr host'
      \<and> host_read host' (Some ''/angular.json'') = Some (serializeJson sample_externals doc')
      \<and> json_at doc' [''projects'', ''foo'', ''architect'', ''eslint'']
          = Inr (JObj [(''builder'', JStr ''@angular-eslint/builder:lint''),
                       (''options'', JObj [(''lintFilePatterns'',
                          JArr [JStr ''libs/foo/**/*.ts'', JStr ''libs/foo/**/*.html''])])]))"
proof -
  note w = sample_workspace_read
  have a: "''src'' = (if own_value sample_app ''root'' = JStr [] then ''src''
                      else to_text (own_value sample_app ''root''))"
    by (simp add: sample_shape)
  have b: "''libs/foo'' = (if own_value sample_foo ''root'' = JStr [] then ''src''
                      else to_text (own_value sample_foo ''root''))"
    by (simp add: sample_shape)
  from addESLintTargetToProject_writes_target [OF w [THEN conjunct1]
      w [THEN conjunct2, THEN conjunct1] w [THEN conjunct2, THEN conjunct2]
      sample_shape(1) sample_shape(2) sample_shape(4) a, of Lint "()"]
    addESLintTargetToProject_writes_target [OF w [THEN conjunct1]
      w [THEN conjunct2, THEN conjunct1] w [THEN conjunct2, THEN conjunct2]
      sample_shape(1) sample_shape(3) sample_shape(5) b, of Eslint "()"]
  show ?thesis by simp
qed

theorem addESLintTargetToProject_frame_witness:
  "\<exists>host' doc'.
      addESLintTargetToProject sample_externals ''app'' Lint sample_host () = Inr host'
      \<and> host_read host' (Some ''/angular.json'') = Some (serializeJson sample_externals doc')
      \<and> json_at doc' [''projects'', ''app'', ''root''] = Inr (JStr [])
      \<and> json_at doc' [''projects'', ''app'', ''architect'', ''build''] = Inr (JObj [])
      \<and> json_at doc' [''projects'', ''foo''] = Inr (JObj sample_foo)
      \<and> json_at doc' [''version''] = Inr (JNum 1)"
proof -
  note w = sample_workspace_read
  from addESLintTargetToProject_frame [OF w [THEN conjunct1]
      w [THEN conjunct2, THEN conjunct1] w [THEN conjunct2, THEN conjunct2]
      sample_shape(1) sample_shape(2) sample_shape(4), of Lint "()"]
  obtain host' doc' where
    h: "addESLintTargetToProject sample_externals ''app'' Lint sample_host () = Inr host'"
      "host_read host' (Some ''/angular.json'') = Some (serializeJson sample_externals doc')"
    and f: "\<And>ks. take (length ks) [''projects'', ''app'', ''architect'', target_key Lint] \<noteq> ks
               \<Longrightarrow> take 4 ks \<noteq> [''projects'', ''app'', ''architect'', target_key Lint]
             \<Longrightarrow> json_at doc' ks = json_at (JObj sample_fields) ks"
    by blast
  have "json_at doc' [''projects'', ''app'', ''root''] = Inr (JStr [])"
    by (subst f) (simp_all add: sample_fields_def sample_projects_def sample_app_def)
  moreover have "json_at doc' [''projects'', ''app'', ''architect'', ''build''] = Inr (JObj [])"
    by (subst f) (simp_all add: sample_fields_def sample_projects_def sample_app_def
        sample_app_architect_def)
  moreover have "json_at doc' [''projects'', ''foo''] = Inr (JObj sample_foo)"
    by (subst f) (simp_all add: sample_fields_def sample_projects_def)
  moreover have "json_at doc' [''version''] = Inr (JNum 1)"
    by (subst f) (simp_all add: sample_fields_def)
  ultimately show ?thesis using h by blast
qed

section \<open>Properties of the ESLint configurations\<close>

lemma index_zero: "is_array_index ''0''" "digits_val ''0'' = 0"
  by (simp_all add: is_array_index_def digits_val_def is_digit_def)

text \<open>
  C6. Where \<^verbatim>\<open>offsetFromRoot\<close> returns for the root path, the per-project configuration
  extends that offset followed by \<^verbatim>\<open>.eslintrc.json\<close>, ignores \<^verbatim>\<open>!**/*\<close>, and its
  \<^verbatim>\<open>*.ts\<close> override has as \<^verbatim>\<open>parserOptions.project\<close> the app, spec and e2e files of
  the project root for an application and the lib and spec files for a library.
\<close>

theorem createProjectESLintConfig_shape:
  assumes "offsetFromRoot rootPath = Inr offset"
  shows "\<exists>config.
      createProjectESLintConfig rootPath projectRoot projectType prefix = Inr config
      \<and> json_at config [''extends''] = Inr (JStr (offset @ ''.eslintrc.json''))
      \<and> json_at config [''ignorePatterns''] = Inr (JArr [JStr ''!**/*''])
      \<and> json_at config [''overrides'', ''0'', ''files''] = Inr (JArr [JStr ''*.ts''])
      \<and> json_at config [''overrides'', ''0'', ''parserOptions'', ''project'']
          = Inr (setESLintProjectBasedOnProjectType projectRoot projectType)
      \<and> (projectType = ''application'' \<longrightarrow>
            setESLintProjectBasedOnProjectType projectRoot projectType
              = JArr [JStr (projectRoot @ ''/tsconfig.app.json''),
                      JStr (projectRoot @ ''/tsconfig.spec.json''),
                      JStr (projectRoot @ ''/e2e/tsconfig.json'')])
      \<and> (projectType = ''library'' \<longrightarrow>
            setESLintProjectBasedOnProjectType projectRoot projectType
              = JArr [JStr (projectRoot @ ''/tsconfig.lib.json''),
                      JStr (projectRoot @ ''/tsconfig.spec.json'')])"
  using assms
  by (simp add: createProjectESLintConfig_def index_zero
      setESLintProjectBasedOnProjectType_def)

theorem createProjectESLintConfig_shape_witness:
  "offsetFromRoot ''/'' = Inr ''../../''
   \<and> (\<exists>config.
      createProjectESLintConfig ''/'' ''libs/foo'' ''library'' ''lib'' = Inr config
      \<and> json_at config [''extends''] = Inr (JStr ''../../.eslintrc.json'')
      \<and> json_at config [''overrides'', ''0'', ''parserOptions'', ''project'']
          = Inr (JArr [JStr ''libs/foo/tsconfig.lib.json'',
                       JStr ''libs/foo/tsconfig.spec.json'']))
   \<and> (\<exists>config.
      createProjectESLintConfig ''/'' ''apps/bar'' ''application'' ''bar'' = Inr config
      \<and> json_at config [''overrides'', ''0'', ''parserOptions'', ''project'']
          = Inr (JArr [JStr ''apps/bar/tsconfig.app.json'',
                       JStr ''apps/bar/tsconfig.spec.json'',
                       JStr ''apps/bar/e2e/tsconfig.json'']))"
proof -
  have o: "offsetFromRoot ''/'' = Inr ''../../''" by code_simp
  from createProjectESLintConfig_shape [OF o, of "''libs/foo''" "''library''" "''lib''"]
    createProjectESLintConfig_shape [OF o, of "''apps/bar''" "''application''" "''bar''"]
  show ?thesis using o by auto
qed

text \<open>
  C7, as the code has it. The root configuration has \<^verbatim>\<open>root: true\<close> and ignores
  \<^verbatim>\<open>projects/**/*\<close>. The rules of its \<^verbatim>\<open>*.ts\<close> override are empty for the prefix
  \<^verbatim>\<open>null\<close> and for the empty prefix; for every other prefix they hold the
  directive-selector rule (attribute, the prefix, camelCase) and the component-selector
  rule (element, the prefix, kebab-case).
\<close>

theorem createRootESLintConfig_rules:
  "json_at (createRootESLintConfig prefix) [''root''] = Inr (JBool True)
   \<and> json_at (createRootESLintConfig prefix) [''ignorePatterns'']
       = Inr (JArr [JStr ''projects/**/*''])
   \<and> json_at (createRootESLintConfig prefix) [''overrides'', ''0'', ''files'']
       = Inr (JArr [JStr ''*.ts''])
   \<and> (prefix = None \<or> prefix = Some [] \<longrightarrow>
        json_at (createRootESLintConfig prefix) [''overrides'', ''0'', ''rules'']
          = Inr (JObj []))
   \<and> (\<forall>p. prefix = Some p \<and> p \<noteq> [] \<longrightarrow>
        json_at (createRootESLintConfig prefix)
            [''overrides'', ''0'', ''rules'', ''@angular-eslint/directive-selector'']
          = Inr (JArr [JStr ''error'',
                       JObj [(''type'', JStr ''attribute''), (''prefix'', JStr p),
                             (''style'', JStr ''camelCase'')]])
        \<and> json_at (createRootESLintConfig prefix)
            [''overrides'', ''0'', ''rules'', ''@angular-eslint/component-selector'']
          = Inr (JArr [JStr ''error'',
                       JObj [(''type'', JStr ''element''), (''prefix'', JStr p),
                             (''style'', JStr ''kebab-case'')]]))"
  by (auto simp: createRootESLintConfig_def index_zero selectorRules_def)

theorem createRootESLintConfig_rules_witness:
  "json_at (createRootESLintConfig None) [''overrides'', ''0'', ''rules''] = Inr (JObj [])
   \<and> json_at (createRootESLintConfig (Some ''app''))
            [''overrides'', ''0'', ''rules'', ''@angular-eslint/directive-selector'']
          = Inr (JArr [JStr ''error'',
                       JObj [(''type'', JStr ''attribute''), (''prefix'', JStr ''app''),
                             (''style'', JStr ''camelCase'')]])
   \<and> json_at (createRootESLintConfig (Some ''app''))
            [''overrides'', ''0'', ''rules'', ''@angular-eslint/component-selector'']
          = Inr (JArr [JStr ''error'',
                       JObj [(''type'', JStr ''element''), (''prefix'', JStr ''app''),
                             (''style'', JStr ''kebab-case'')]])"
  using createRootESLintConfig_rules [of None]
    createRootESLintConfig_rules [of "Some ''app''"]
  by simp

text \<open>
  C7 as the specification words it asks for the two selector rules at every prefix that
  is not \<^verbatim>\<open>null\<close>; at the empty prefix, which \<^verbatim>\<open>if (prefix)\<close> takes as absent, there
  are none.
\<close>

theorem createRootESLintConfig_empty_prefix_counterexample:
  "json_at (createRootESLintConfig (Some []))
      [''overrides'', ''0'', ''rules'', ''@angular-eslint/directive-selector'']
     \<noteq> Inr (JArr [JStr ''error'',
                  JObj [(''type'', JStr ''attribute''), (''prefix'', JStr []),
                        (''style'', JStr ''camelCase'')]])
   \<and> json_at (createRootESLintConfig (Some [])) [''overrides'', ''0'', ''rules'']
       = Inr (JObj [])"
  by (simp add: createRootESLintConfig_def index_zero)

section \<open>Properties of \<^verbatim>\<open>sortObjectByKeys\<close>\<close>

lemma mset_own_entries: "mset (own_entries R) = mset R"
  by (simp add: own_entries_def)

lemma keys_own_entries_mset: "mset (map fst (own_entries R)) = mset (map fst R)"
  using mset_own_entries [of R] by (metis mset_map)

lemma distinct_own_entries:
  "distinct (map fst (own_entries R)) = distinct (map fst R)"
  using keys_own_entries_mset [of R] by (rule mset_eq_imp_distinct_iff)

lemma set_keys_own_entries: "set (map fst (own_entries R)) = set (map fst R)"
  using keys_own_entries_mset [of R] by (rule mset_eq_setD)

lemma map_of_own_entries:
  assumes "distinct (map fst R)"
  shows "map_of (own_entries R) = map_of R"
proof -
  have "set (own_entries R) = set R"
    using mset_own_entries [of R] by (rule mset_eq_setD)
  with assms show ?thesis
    using map_of_inject_set [of "own_entries R" R] by (simp add: distinct_own_entries)
qed

lemma other_keys_own_entries:
  "filter (\<lambda>k. \<not> is_array_index k) (map fst (own_entries R))
     = filter (\<lambda>k. \<not> is_array_index k) (map fst R)"
  by (simp add: own_entries_def filter_map comp_def)

lemma index_keys_own_entries_sorted:
  "sorted (map digits_val (filter is_array_index (map fst (own_entries R))))"
proof -
  have "filter is_array_index (map fst (own_entries R))
        = map fst (sort_key (\<lambda>p. digits_val (fst p)) (filter (\<lambda>p. is_array_index (fst p)) R))"
    by (simp add: own_entries_def filter_map comp_def)
  moreover have "sorted (map (\<lambda>p. digits_val (fst p))
      (sort_key (\<lambda>p. digits_val (fst p)) (filter (\<lambda>p. is_array_index (fst p)) R)))"
    by (rule sorted_sort_key)
  ultimately show ?thesis by (simp add: comp_def)
qed

lemma Object_keys_split:
  "Object_keys R = filter is_array_index (Object_keys R)
                   @ filter (\<lambda>k. \<not> is_array_index k) (map fst R)"
  by (simp add: Object_keys_def own_entries_def filter_map comp_def)

text \<open>One turn of the \<^verbatim>\<open>reduce\<close>.\<close>

lemma update_fresh: "k \<notin> fst ` set al \<Longrightarrow> AList.update k v al = al @ [(k, v)]"
  by (induction al) auto

lemma assign_all_fresh:
  "distinct (map fst xs) \<Longrightarrow> ''__proto__'' \<notin> set (map fst xs) \<Longrightarrow>
     set (map fst xs) \<inter> set (map fst t) = {} \<Longrightarrow>
     fold (\<lambda>p t. assign_property t p) xs t = t @ xs"
proof (induction xs arbitrary: t)
  case Nil
  then show ?case by simp
next
  case (Cons x xs)
  from Cons.prems have x: "fst x \<noteq> ''__proto__''" "fst x \<notin> fst ` set t" by auto
  then have a: "assign_property t x = t @ [x]"
    by (simp add: assign_property_def update_fresh)
  from Cons.prems have "set (map fst xs) \<inter> set (map fst (t @ [x])) = {}" by auto
  with Cons show ?case by (simp add: a)
qed

lemma copy_own:
  assumes "distinct (map fst R)" and "''__proto__'' \<notin> set (map fst R)"
  shows "Object_assign [] R = own_entries R"
proof -
  have "distinct (map fst (own_entries R))"
    using assms(1) by (simp add: distinct_own_entries del: map_map)
  moreover have "''__proto__'' \<notin> set (map fst (own_entries R))"
    using assms(2) by (simp add: set_keys_own_entries del: set_map)
  ultimately show ?thesis
    using assign_all_fresh [of "own_entries R" "[]"] by (simp add: Object_assign_def)
qed

lemma own_entries_single: "own_entries [p] = [p]"
  by (simp add: own_entries_def)

lemma reducer_step:
  assumes "distinct (map fst R)" and "''__proto__'' \<notin> set (map fst R)"
  shows "reducer obj R k =
     (if k = ''__proto__'' then own_entries R
      else AList.update k (own_value obj k) (own_entries R))"
proof -
  have "Object_assign (own_entries R) [(k, own_value obj k)]
        = assign_property (own_entries R) (k, own_value obj k)"
    by (simp add: Object_assign_def own_entries_single)
  then show ?thesis
    by (simp add: reducer_def copy_own [OF assms] assign_property_def)
qed

lemma step_keys:
  assumes "k \<notin> set (map fst R)"
  shows "map fst (AList.update k v (own_entries R)) = map fst (own_entries R) @ [k]"
  using assms by (simp add: update_keys set_keys_own_entries del: set_map)

lemma fold_step:
  assumes "distinct ks" and "set ks \<inter> set (map fst R) = {}" and "distinct (map fst R)"
    and "''__proto__'' \<notin> set (map fst R)"
  shows "distinct (map fst (fold (\<lambda>key result. reducer obj result key) ks R))
    \<and> set (map fst (fold (\<lambda>key result. reducer obj result key) ks R))
        = set (map fst R) \<union> (set ks - {''__proto__''})
    \<and> (\<forall>k. map_of (fold (\<lambda>key result. reducer obj result key) ks R) k
           = (if k \<in> set ks \<and> k \<noteq> ''__proto__'' then Some (own_value obj k)
              else map_of R k))
    \<and> filter (\<lambda>k. \<not> is_array_index k)
         (map fst (fold (\<lambda>key result. reducer obj result key) ks R))
       = filter (\<lambda>k. \<not> is_array_index k) (map fst R)
         @ filter (\<lambda>k. \<not> is_array_index k \<and> k \<noteq> ''__proto__'') ks"
  using assms
proof (induction ks arbitrary: R)
  case Nil
  then show ?case by simp
next
  case (Cons k ks)
  let ?R1 = "reducer obj R k"
  note step = reducer_step [OF Cons.prems(3,4), of obj k]
  from Cons.prems have knew: "k \<notin> set (map fst R)" by auto
  from Cons.prems have kks: "k \<notin> set ks" and dks: "distinct ks" by simp_all
  show ?case
  proof (cases "k = ''__proto__''")
    case True
    then have r1: "?R1 = own_entries R" using step by simp
    have d1: "distinct (map fst ?R1)"
      unfolding r1 using Cons.prems(3) by (simp add: distinct_own_entries del: map_map)
    have s1: "set (map fst ?R1) = set (map fst R)"
      unfolding r1 by (rule set_keys_own_entries)
    have m1: "map_of ?R1 = map_of R"
      unfolding r1 using Cons.prems(3) by (rule map_of_own_entries)
    have o1: "filter (\<lambda>k. \<not> is_array_index k) (map fst ?R1)
              = filter (\<lambda>k. \<not> is_array_index k) (map fst R)"
      unfolding r1 by (rule other_keys_own_entries)
    from Cons.prems have disj: "set ks \<inter> set (map fst ?R1) = {}"
      unfolding s1 by auto
    from Cons.prems(4) have p1: "''__proto__'' \<notin> set (map fst ?R1)"
      unfolding s1 .
    note IH = Cons.IH [OF dks disj d1 p1]
    show ?thesis
      using IH kks unfolding fold_simps comp_def
      by (simp only: s1 m1 o1) (use True in \<open>auto simp del: set_map\<close>)
  next
    case False
    then have r1: "?R1 = AList.update k (own_value obj k) (own_entries R)"
      using step by simp
    have keys1: "map fst ?R1 = map fst (own_entries R) @ [k]"
      unfolding r1 using knew by (rule step_keys)
    have d1: "distinct (map fst ?R1)"
      unfolding r1 using Cons.prems(3)
      by (simp add: distinct_update distinct_own_entries del: map_map)
    have s1: "set (map fst ?R1) = insert k (set (map fst R))"
      unfolding keys1 using set_keys_own_entries [of R] by auto
    have m1: "map_of ?R1 = (map_of R)(k \<mapsto> own_value obj k)"
      unfolding r1 using Cons.prems(3) by (simp add: update_conv' map_of_own_entries)
    have o1: "filter (\<lambda>k. \<not> is_array_index k) (map fst ?R1)
              = filter (\<lambda>k. \<not> is_array_index k) (map fst R)
                @ filter (\<lambda>k. \<not> is_array_index k) [k]"
      unfolding keys1 using other_keys_own_entries [of R] by simp
    from Cons.prems have disj: "set ks \<inter> set (map fst ?R1) = {}"
      unfolding s1 by auto
    from Cons.prems(4) False have p1: "''__proto__'' \<notin> set (map fst ?R1)"
      unfolding s1 by simp
    note IH = Cons.IH [OF dks disj d1 p1]
    show ?thesis
      using IH kks unfolding fold_simps comp_def
      by (simp only: s1 m1 o1) (use False in \<open>auto simp del: set_map\<close>)
  qed
qed

lemma sort_mset_cong: "mset xs = mset ys \<Longrightarrow> sort xs = sort ys"
  by (rule properties_for_sort) simp_all

lemma map_of_filter_key:
  "map_of (filter (\<lambda>p. fst p \<noteq> x) xs) k = (if k \<noteq> x then map_of xs k else None)"
  by (induction xs) auto

lemma proto_no_index: "\<not> is_array_index ''__proto__''"
  by (simp add: is_array_index_def is_digit_def)

text \<open>
  C9, as the code has it. For an object (its keys are distinct), \<^verbatim>\<open>sortObjectByKeys\<close>
  returns an object with exactly the key-value pairs of the object whose key is not
  \<^verbatim>\<open>__proto__\<close>, so the same pairs when it has no such key. Its keys enumerate with the
  array indices first, in ascending numeric order, and then the other keys in
  lexicographic order; when no key is an array index that is the lexicographic order of
  all keys, as for \<^verbatim>\<open>{b: 1, a: 2}\<close>, which gives the keys \<^verbatim>\<open>a\<close>, \<^verbatim>\<open>b\<close> with their values.
\<close>

theorem sortObjectByKeys_order:
  assumes "distinct (map fst obj)"
  shows "set (sortObjectByKeys obj) = {p \<in> set obj. fst p \<noteq> ''__proto__''}
    \<and> (''__proto__'' \<notin> set (map fst obj) \<longrightarrow> set (sortObjectByKeys obj) = set obj)
    \<and> distinct (map fst (sortObjectByKeys obj))
    \<and> (\<exists>index_keys.
          Object_keys (sortObjectByKeys obj)
            = index_keys
              @ sort (filter (\<lambda>k. \<not> is_array_index k \<and> k \<noteq> ''__proto__'') (map fst obj))
          \<and> mset index_keys = mset (filter is_array_index (map fst obj))
          \<and> sorted (map digits_val index_keys))
    \<and> ((\<forall>k \<in> set (map fst obj). \<not> is_array_index k \<and> k \<noteq> ''__proto__'') \<longrightarrow>
          Object_keys (sortObjectByKeys obj) = sort (map fst obj))
    \<and> Object_keys (sortObjectByKeys [(''b'', JNum 1), (''a'', JNum 2)]) = [''a'', ''b'']
    \<and> sortObjectByKeys [(''b'', JNum 1), (''a'', JNum 2)] = [(''a'', JNum 2), (''b'', JNum 1)]
    \<and> sortObjectByKeys [(''b'', JNum 1), (''__proto__'', JNum 2)] = [(''b'', JNum 1)]"
proof -
  let ?ks = "sort (Object_keys obj)"
  let ?res = "sortObjectByKeys obj"
  let ?kept = "filter (\<lambda>p. fst p \<noteq> ''__proto__'') obj"
  let ?other = "\<lambda>k. \<not> is_array_index k \<and> k \<noteq> ''__proto__''"
  have keys_obj: "mset (Object_keys obj) = mset (map fst obj)"
    unfolding Object_keys_def by (rule keys_own_entries_mset)
  then have set_ok: "set (Object_keys obj) = set (map fst obj)"
    by (rule mset_eq_setD)
  have "distinct (Object_keys obj)"
    unfolding Object_keys_def using assms by (simp add: distinct_own_entries del: map_map)
  then have dks: "distinct ?ks" by simp
  have res: "?res = fold (\<lambda>key result. reducer obj result key) ?ks []"
    by (simp add: sortObjectByKeys_def)
  from fold_step [OF dks, of "[]" obj]
  have d: "distinct (map fst ?res)"
    and s: "set (map fst ?res) = set ?ks - {''__proto__''}"
    and m: "\<And>k. map_of ?res k
              = (if k \<in> set ?ks \<and> k \<noteq> ''__proto__'' then Some (own_value obj k) else None)"
    and o: "filter (\<lambda>k. \<not> is_array_index k) (map fst ?res) = filter ?other ?ks"
    unfolding res by simp_all
  have "map_of ?res k = map_of ?kept k" for k
  proof (cases "k \<in> set (map fst obj)")
    case True
    then obtain v where "map_of obj k = Some v"
      by (metis map_of_eq_None_iff not_Some_eq set_map)
    with True show ?thesis
      by (simp add: m set_ok own_value_def map_of_filter_key del: set_map)
  next
    case False
    then have "map_of obj k = None" by (simp add: map_of_eq_None_iff)
    with False show ?thesis by (simp add: m set_ok map_of_filter_key del: set_map)
  qed
  then have "map_of ?res = map_of ?kept" by (rule ext)
  moreover have dk: "distinct (map fst ?kept)"
    using assms by (rule distinct_map_filter)
  ultimately have "set ?res = set ?kept"
    using d map_of_inject_set [of ?res ?kept] by simp
  then have same: "set ?res = {p \<in> set obj. fst p \<noteq> ''__proto__''}" by simp
  have all: "set ?res = set obj" if "''__proto__'' \<notin> set (map fst obj)"
    using same that by force
  have other: "filter (\<lambda>k. \<not> is_array_index k) (map fst ?res)
               = sort (filter ?other (map fst obj))"
  proof -
    have "filter ?other ?ks = sort (filter ?other (Object_keys obj))"
      by (rule filter_sort)
    also have "\<dots> = sort (filter ?other (map fst obj))"
      by (rule sort_mset_cong) (simp add: keys_obj del: mset_map)
    finally show ?thesis using o by simp
  qed
  let ?I = "filter is_array_index (Object_keys ?res)"
  have split: "Object_keys ?res = ?I @ sort (filter ?other (map fst obj))"
    using Object_keys_split [of ?res] other by simp
  have "set (map fst ?res) = set (filter (\<lambda>k. k \<noteq> ''__proto__'') (map fst obj))"
    using s set_ok by auto
  moreover have "distinct (filter (\<lambda>k. k \<noteq> ''__proto__'') (map fst obj))"
    using assms by simp
  ultimately have "mset (map fst ?res) = mset (filter (\<lambda>k. k \<noteq> ''__proto__'') (map fst obj))"
    using d set_eq_iff_mset_eq_distinct by blast
  moreover have "mset (Object_keys ?res) = mset (map fst ?res)"
    unfolding Object_keys_def by (rule keys_own_entries_mset)
  ultimately have "mset (Object_keys ?res)
      = mset (filter (\<lambda>k. k \<noteq> ''__proto__'') (map fst obj))"
    by (rule trans [rotated])
  then have "filter_mset is_array_index (mset (Object_keys ?res))
      = filter_mset is_array_index (mset (filter (\<lambda>k. k \<noteq> ''__proto__'') (map fst obj)))"
    by (rule arg_cong)
  then have "mset ?I
      = mset (filter is_array_index (filter (\<lambda>k. k \<noteq> ''__proto__'') (map fst obj)))"
    by (simp only: mset_filter)
  moreover have "filter is_array_index (filter (\<lambda>k. k \<noteq> ''__proto__'') (map fst obj))
                 = filter is_array_index (map fst obj)"
    using proto_no_index by (auto intro: filter_cong)
  ultimately have mI: "mset ?I = mset (filter is_array_index (map fst obj))"
    by (rule trans [OF _ arg_cong [where f = mset]])
  have sI: "sorted (map digits_val ?I)"
    unfolding Object_keys_def by (rule index_keys_own_entries_sorted)
  have none: "Object_keys ?res = sort (map fst obj)"
    if "\<forall>k \<in> set (map fst obj). \<not> is_array_index k \<and> k \<noteq> ''__proto__''"
  proof -
    from that have "filter is_array_index (map fst obj) = []"
      by (simp add: filter_empty_conv)
    with mI have "?I = []" by (simp del: mset_filter mset_map)
    moreover from that have "filter ?other (map fst obj) = map fst obj"
      by simp
    ultimately show ?thesis using split by simp
  qed
  have ex1: "Object_keys (sortObjectByKeys [(''b'', JNum 1), (''a'', JNum 2)]) = [''a'', ''b'']"
    by code_simp
  have ex2: "sortObjectByKeys [(''b'', JNum 1), (''a'', JNum 2)] = [(''a'', JNum 2), (''b'', JNum 1)]"
    by code_simp
  have ex3: "sortObjectByKeys [(''b'', JNum 1), (''__proto__'', JNum 2)] = [(''b'', JNum 1)]"
    by code_simp
  from split mI sI have ex: "\<exists>index_keys.
          Object_keys ?res = index_keys @ sort (filter ?other (map fst obj))
          \<and> mset index_keys = mset (filter is_array_index (map fst obj))
          \<and> sorted (map digits_val index_keys)"
    by blast
  show ?thesis
  proof (intro conjI)
    show "set ?res = {p \<in> set obj. fst p \<noteq> ''__proto__''}" by (rule same)
    show "''__proto__'' \<notin> set (map fst obj) \<longrightarrow> set ?res = set obj"
      using all by blast
    show "distinct (map fst ?res)" by (rule d)
    show "\<exists>index_keys.
          Object_keys ?res = index_keys @ sort (filter ?other (map fst obj))
          \<and> mset index_keys = mset (filter is_array_index (map fst obj))
          \<and> sorted (map digits_val index_keys)"
      by (rule ex)
    show "(\<forall>k \<in> set (map fst obj). \<not> is_array_index k \<and> k \<noteq> ''__proto__'') \<longrightarrow>
          Object_keys ?res = sort (map fst obj)"
      using none by blast
  qed (rule ex1 ex2 ex3)+
qed

theorem sortObjectByKeys_order_witness:
  "distinct (map fst [(''b'', JNum 1), (''10'', JNum 3), (''a'', JNum 2), (''9'', JNum 4)])
   \<and> set (sortObjectByKeys [(''b'', JNum 1), (''10'', JNum 3), (''a'', JNum 2), (''9'', JNum 4)])
       = set [(''b'', JNum 1), (''10'', JNum 3), (''a'', JNum 2), (''9'', JNum 4)]
   \<and> Object_keys (sortObjectByKeys [(''b'', JNum 1), (''a'', JNum 2)])
       = sort (map fst [(''b'', JNum 1), (''a'', JNum 2)])"
proof -
  have d1: "distinct (map fst [(''b'', JNum 1), (''10'', JNum 3), (''a'', JNum 2), (''9'', JNum 4)])"
    by simp
  have p1: "''__proto__''
              \<notin> set (map fst [(''b'', JNum 1), (''10'', JNum 3), (''a'', JNum 2), (''9'', JNum 4)])"
    by simp
  have d2: "distinct (map fst [(''b'', JNum 1), (''a'', JNum 2)])" by simp
  have n2: "\<forall>k \<in> set (map fst [(''b'', JNum 1), (''a'', JNum 2)]).
              \<not> is_array_index k \<and> k \<noteq> ''__proto__''"
    by (simp add: is_array_index_def is_digit_def)
  note t1 = sortObjectByKeys_order [OF d1]
  note t2 = sortObjectByKeys_order [OF d2]
  from t1 p1
  have a: "set (sortObjectByKeys [(''b'', JNum 1), (''10'', JNum 3), (''a'', JNum 2), (''9'', JNum 4)])
       = set [(''b'', JNum 1), (''10'', JNum 3), (''a'', JNum 2), (''9'', JNum 4)]"
    by (elim conjE) (erule (1) mp)
  from t2 n2
  have b: "Object_keys (sortObjectByKeys [(''b'', JNum 1), (''a'', JNum 2)])
       = sort (map fst [(''b'', JNum 1), (''a'', JNum 2)])"
    by (elim conjE) (erule (1) mp)
  from d1 a b show ?thesis by (intro conjI)
qed

text \<open>
  C9 as the specification words it has the keys of the result enumerate in
  lexicographic order for every object; \<^verbatim>\<open>{"9": 1, "10": 2}\<close> comes back with the keys
  \<^verbatim>\<open>9\<close>, \<^verbatim>\<open>10\<close>, which is their numeric and not their lexicographic order.
\<close>

theorem sortObjectByKeys_index_keys_counterexample:
  "Object_keys (sortObjectByKeys [(''9'', JNum 1), (''10'', JNum 2)]) = [''9'', ''10'']
   \<and> \<not> sorted (Object_keys (sortObjectByKeys [(''9'', JNum 1), (''10'', JNum 2)]))"
proof -
  have k: "Object_keys (sortObjectByKeys [(''9'', JNum 1), (''10'', JNum 2)]) = [''9'', ''10'']"
    by code_simp
  have "\<not> ''9'' \<le> ''10''" by code_simp
  with k show ?thesis by simp
qed

section \<open>Properties of \<^verbatim>\<open>allFilesInDirInHost\<close>\<close>

subsection \<open>Clean paths are normalized as they are\<close>



















subsection \<open>The two loops\<close>



subsection \<open>The directory entries of a clean tree\<close>


lemma distinct_first_occurrences [simp]: "distinct (first_occurrences xs)"
  by (simp add: first_occurrences_def)











subsection \<open>The listing that is returned\<close>








subsection \<open>Every file once\<close>








end
